theory Spec2Isabelle
  imports Main "HOL-Library.Monad_Syntax"
begin

section \<open>JavaScript values\<close>

text \<open>
  The compilers of \<^verbatim>\<open>smart_search.ts\<close> take a query of type \<^verbatim>\<open>any\<close> and return
  \<^verbatim>\<open>any[]\<close>. The values they see are the JSON values of a tool call, and
  \<^verbatim>\<open>undefined\<close>, which a read of an absent property yields. Numbers are integers here:
  the compilers copy a number and never compute with one, apart from the length of an array.
  An object is the list of its own properties; a key has one binding (on a
  list that repeats a key, the first binding is the one read).
\<close>

datatype jsval =
    JUndefined
  | JNull
  | JBool bool
  | JNum int
  | JStr string
  | JArr "jsval list"
  | JObj "(string \<times> jsval) list"

text \<open>\<^verbatim>\<open>!v\<close> is true on the falsy values: undefined, null, false, 0 and the empty string.\<close>

fun truthy :: "jsval \<Rightarrow> bool" where
  "truthy JUndefined = False"
| "truthy JNull = False"
| "truthy (JBool b) = b"
| "truthy (JNum n) = (n \<noteq> 0)"
| "truthy (JStr s) = (s \<noteq> [])"
| "truthy (JArr xs) = True"
| "truthy (JObj kvs) = True"

definition nullish :: "jsval \<Rightarrow> bool" where
  "nullish v = (v = JUndefined \<or> v = JNull)"

text \<open>
  \<open>js_prop v k\<close> is the value of \<^verbatim>\<open>v.k\<close> on a value that is neither undefined nor null, for the
  names the compilers read with a dot: \<^verbatim>\<open>logic\<close>, \<^verbatim>\<open>conditions\<close>, \<^verbatim>\<open>field\<close>,
  \<^verbatim>\<open>operator\<close>, \<^verbatim>\<open>value\<close> and \<^verbatim>\<open>length\<close>. An absent property reads as undefined;
  arrays and strings have a \<^verbatim>\<open>length\<close>; booleans and numbers have none of these names.
\<close>

fun js_prop :: "jsval \<Rightarrow> string \<Rightarrow> jsval" where
  "js_prop (JObj kvs) k = (case map_of kvs k of None \<Rightarrow> JUndefined | Some v \<Rightarrow> v)"
| "js_prop (JArr xs) k = (if k = ''length'' then JNum (int (length xs)) else JUndefined)"
| "js_prop (JStr s) k = (if k = ''length'' then JNum (int (length s)) else JUndefined)"
| "js_prop v k = JUndefined"

text \<open>
  Reading a property of undefined or null throws a TypeError: \<open>None\<close>. A TypeError is
  the only exception the compilers can throw, so their result type is an option.
\<close>

definition get_prop :: "jsval \<Rightarrow> string \<Rightarrow> jsval option" where
  "get_prop v k = (if nullish v then None else Some (js_prop v k))"

text \<open>\<^verbatim>\<open>v[0]\<close> on a value that is neither undefined nor null.\<close>

fun elem0 :: "jsval \<Rightarrow> jsval" where
  "elem0 (JArr xs) = (case xs of [] \<Rightarrow> JUndefined | x # _ \<Rightarrow> x)"
| "elem0 (JStr s) = (case s of [] \<Rightarrow> JUndefined | c # _ \<Rightarrow> JStr [c])"
| "elem0 (JObj kvs) = (case map_of kvs ''0'' of None \<Rightarrow> JUndefined | Some v \<Rightarrow> v)"
| "elem0 v = JUndefined"

section \<open>The production compiler: \<^verbatim>\<open>convertQueryToDomain\<close>\<close>

text \<open>\<^verbatim>\<open>[condition.field, condition.operator, condition.value]\<close>\<close>

definition condition_tuple :: "jsval \<Rightarrow> jsval option" where
  "condition_tuple condition = do {
     f \<leftarrow> get_prop condition ''field'';
     operator \<leftarrow> get_prop condition ''operator'';
     v \<leftarrow> get_prop condition ''value'';
     Some (JArr [f, operator, v])
   }"

text \<open>
  \<^verbatim>\<open>for (let i = 0; i < conditions.length - 1; i++) { domain.push('|'); }\<close>
  with \<open>n\<close> the length.
\<close>

function or_loop :: "int \<Rightarrow> int \<Rightarrow> jsval list \<Rightarrow> jsval list" where
  "or_loop i n domain =
     (if i < n - 1 then or_loop (i + 1) n (domain @ [JStr ''|'']) else domain)"
  by pat_completeness auto
termination
  by (relation "measure (\<lambda>(i, n, domain). nat (n - 1 - i))") auto

declare or_loop.simps [simp del]

text \<open>The markers pushed before the operands, by the value of \<^verbatim>\<open>logic\<close>.\<close>

definition push_markers :: "jsval \<Rightarrow> jsval list \<Rightarrow> jsval list" where
  "push_markers logic cs =
     (if logic = JStr ''OR'' then or_loop 0 (int (length cs)) []
      else if logic = JStr ''NOT'' then [JStr ''!'']
      else [])"

text \<open>
  \<^verbatim>\<open>xs.forEach((x) => { domain.push(...f(x)) })\<close>: the callback runs on each element in
  order and appends to \<open>domain\<close>; an exception in the callback leaves the loop.
\<close>

fun forEach_push :: "(jsval \<Rightarrow> jsval list option) \<Rightarrow> jsval list \<Rightarrow> jsval list \<Rightarrow> jsval list option" where
  "forEach_push f [] domain = Some domain"
| "forEach_push f (x # xs) domain =
     (case f x of None \<Rightarrow> None | Some ts \<Rightarrow> forEach_push f xs (domain @ ts))"

definition push_condition :: "jsval \<Rightarrow> jsval list option" where
  "push_condition condition = map_option (\<lambda>t. [t]) (condition_tuple condition)"

text \<open>
  Past the two early returns the function calls \<^verbatim>\<open>conditions.forEach\<close>, which only an
  array has: on any other value the call throws a TypeError (the marker loop before it
  ends, its bound being a fixed number or NaN).
\<close>

definition convertQueryToDomain :: "jsval \<Rightarrow> jsval list option" where
  "convertQueryToDomain query = do {
     logic \<leftarrow> get_prop query ''logic'';
     conditions \<leftarrow> get_prop query ''conditions'';
     if \<not> truthy conditions \<or> js_prop conditions ''length'' = JNum 0 then Some []
     else if js_prop conditions ''length'' = JNum 1 then do {
       tuple \<leftarrow> condition_tuple (elem0 conditions);
       Some [tuple]
     }
     else (case conditions of
         JArr cs \<Rightarrow> forEach_push push_condition cs (push_markers logic cs)
       | _ \<Rightarrow> None)
   }"

section \<open>The recursive compiler: \<^verbatim>\<open>convertComplexQueryToDomain\<close>\<close>

text \<open>
  The recursive compiler calls itself on \<^verbatim>\<open>conditions[0]\<close> and, inside
  \<^verbatim>\<open>forEach\<close>, on every element of \<^verbatim>\<open>conditions\<close>. Each of them is a part of the
  query, which is what ends the recursion.
\<close>

lemma forEach_push_cong [fundef_cong]:
  "xs = ys \<Longrightarrow> (\<And>x. x \<in> set ys \<Longrightarrow> f x = g x) \<Longrightarrow> d = e \<Longrightarrow>
   forEach_push f xs d = forEach_push g ys e"
proof (induction ys arbitrary: xs d e)
  case Nil
  then show ?case by simp
next
  case (Cons y ys)
  then show ?case by (auto split: option.splits)
qed

lemma size_map_of: "map_of kvs k = Some v \<Longrightarrow> size v \<le> size_list (size_prod (\<lambda>x. 0) size) kvs"
proof -
  assume "map_of kvs k = Some v"
  then have "(k, v) \<in> set kvs" by (rule map_of_SomeD)
  then show ?thesis by (rule size_list_estimation') simp
qed

lemma size_js_prop:
  "truthy (js_prop q k) \<Longrightarrow> k \<noteq> ''length'' \<Longrightarrow> size (js_prop q k) < size q"
  by (cases q) (auto simp: less_Suc_eq_le dest: size_map_of split: option.splits)

lemma size_elem0: "size (elem0 c) \<le> size c"
  by (cases c) (auto simp: le_Suc_eq dest: size_map_of split: option.splits list.splits)

lemma size_elem: "x \<in> set cs \<Longrightarrow> size x < size (JArr cs)"
  by (simp add: size_list_estimation' less_Suc_eq_le)

function convertComplexQueryToDomain :: "jsval \<Rightarrow> jsval list option" where
  "convertComplexQueryToDomain queryGroup = do {
     logic \<leftarrow> get_prop queryGroup ''logic'';
     conditions \<leftarrow> get_prop queryGroup ''conditions'';
     if \<not> truthy conditions \<or> js_prop conditions ''length'' = JNum 0 then Some []
     else do {
       field0 \<leftarrow> get_prop (elem0 conditions) ''field'';
       if field0 \<noteq> JUndefined then
         (if js_prop conditions ''length'' = JNum 1 then do {
            tuple \<leftarrow> condition_tuple (elem0 conditions);
            Some [tuple]
          }
          else (case conditions of
              JArr cs \<Rightarrow> forEach_push push_condition cs (push_markers logic cs)
            | _ \<Rightarrow> None))
       else
         (if js_prop conditions ''length'' = JNum 1
          then convertComplexQueryToDomain (elem0 conditions)
          else (case conditions of
              JArr cs \<Rightarrow> forEach_push convertComplexQueryToDomain cs (push_markers logic cs)
            | _ \<Rightarrow> None))
     }
   }"
  by pat_completeness auto
termination
proof (relation "measure size")
  show "wf (measure size)" by simp
next
  fix queryGroup logic conditions field0
  assume "get_prop queryGroup ''conditions'' = Some conditions"
    and "\<not> (\<not> truthy conditions \<or> js_prop conditions ''length'' = JNum 0)"
  then have "size conditions < size queryGroup"
    using size_js_prop [of queryGroup "''conditions''"]
    by (auto simp: get_prop_def split: if_splits)
  with size_elem0 [of conditions]
  show "(elem0 conditions, queryGroup) \<in> measure size" by simp
next
  fix queryGroup logic conditions field0 cs x
  assume "get_prop queryGroup ''conditions'' = Some conditions"
    and "\<not> (\<not> truthy conditions \<or> js_prop conditions ''length'' = JNum 0)"
    and "conditions = JArr cs" and "x \<in> set cs"
  then have "size conditions < size queryGroup" "size x < size conditions"
    using size_js_prop [of queryGroup "''conditions''"] size_elem [of x cs]
    by (auto simp: get_prop_def split: if_splits)
  then show "(x, queryGroup) \<in> measure size" by simp
qed

declare convertComplexQueryToDomain.simps [simp del]

section \<open>Shapes of the input\<close>

text \<open>A condition leaf is an object; \<open>tuple_of\<close> is the 3-tuple of its three properties.\<close>

fun is_object :: "jsval \<Rightarrow> bool" where
  "is_object (JObj kvs) = True"
| "is_object v = False"

definition tuple_of :: "jsval \<Rightarrow> jsval" where
  "tuple_of c = JArr [js_prop c ''field'', js_prop c ''operator'', js_prop c ''value'']"

text \<open>
  The shapes the tool's schemas give to a query. \<^verbatim>\<open>conditionSchema\<close> is an object
  whose \<^verbatim>\<open>field\<close> and \<^verbatim>\<open>operator\<close> are strings (\<^verbatim>\<open>value\<close> is \<^verbatim>\<open>z.any()\<close> and may be
  absent). \<^verbatim>\<open>queryGroupSchema\<close> is an object whose \<^verbatim>\<open>logic\<close> is one of the three enum
  strings and whose \<^verbatim>\<open>conditions\<close> is a non-empty array, either of conditions or of
  groups. A nested group has no \<^verbatim>\<open>field\<close> property: that is how the recursive compiler
  tells a group from a condition.
\<close>

fun is_string :: "jsval \<Rightarrow> bool" where
  "is_string (JStr s) = True"
| "is_string v = False"

definition conditionSchema :: "jsval \<Rightarrow> bool" where
  "conditionSchema c =
     (is_object c \<and> is_string (js_prop c ''field'') \<and> is_string (js_prop c ''operator''))"

definition logic_enum :: "jsval \<Rightarrow> bool" where
  "logic_enum l = (l = JStr ''AND'' \<or> l = JStr ''OR'' \<or> l = JStr ''NOT'')"

function queryGroupSchema :: "jsval \<Rightarrow> bool" where
  "queryGroupSchema g =
     (is_object g \<and> logic_enum (js_prop g ''logic'') \<and>
      (case js_prop g ''conditions'' of
         JArr cs \<Rightarrow> cs \<noteq> [] \<and>
           (list_all conditionSchema cs \<or>
            list_all (\<lambda>c. js_prop c ''field'' = JUndefined \<and> queryGroupSchema c) cs)
       | _ \<Rightarrow> False))"
  by pat_completeness auto
termination
proof (relation "measure size")
  show "wf (measure size)" by simp
next
  fix g cs x
  assume "js_prop g ''conditions'' = JArr cs" and "x \<in> set cs"
  then have "size (JArr cs) < size g" "size x < size (JArr cs)"
    using size_js_prop [of g "''conditions''"] size_elem [of x cs] by simp_all
  then show "(x, g) \<in> measure size" by simp
qed

declare queryGroupSchema.simps [simp del]

section \<open>Tokens of a filter expression\<close>

text \<open>
  A token of the wire format is the string \<^verbatim>\<open>"|"\<close>, the string \<^verbatim>\<open>"!"\<close> or an array of
  three elements.
\<close>

fun is_token :: "jsval \<Rightarrow> bool" where
  "is_token (JStr s) = (s = ''|'' \<or> s = ''!'')"
| "is_token (JArr xs) = (length xs = 3)"
| "is_token v = False"

section \<open>The tool layer: \<^verbatim>\<open>smart_search.execute\<close> and \<^verbatim>\<open>smartSearch\<close>\<close>

text \<open>
  The input of both handlers, as their schema types it. \<^verbatim>\<open>query\<close> stays a JavaScript
  value, because the handlers test it for absence themselves.
\<close>

record connection =
  url :: string
  db :: string
  uid :: int
  password :: string
  context' :: "jsval option"

record search_input =
  connection :: connection
  model :: string
  query :: jsval
  fields_to_return :: "string list option"
  limit :: int
  offset :: int
  count_only :: bool

text \<open>
  The two remote calls a handler makes through \<^verbatim>\<open>client.call\<close>, with the arguments that
  vary: \<^verbatim>\<open>search_count\<close> with the domain, and \<^verbatim>\<open>search_read\<close> with the domain, the
  fields, the offset and the limit.
\<close>

datatype rpc =
    SearchCount connection string "jsval list"
  | SearchRead connection string "jsval list" "string list" int int

fun domain_sent :: "rpc \<Rightarrow> jsval list" where
  "domain_sent (SearchCount c m domain) = domain"
| "domain_sent (SearchRead c m domain fs off lim) = domain"

text \<open>
  The remote server is a parameter. A call either throws an \<^verbatim>\<open>Error\<close> with a message
  (\<open>Inl\<close>) or returns: \<^verbatim>\<open>search_count\<close> a number, \<^verbatim>\<open>search_read\<close> an array of records or
  null.
\<close>

record remote =
  search_count :: "connection \<Rightarrow> string \<Rightarrow> jsval list \<Rightarrow> string + int"
  search_read :: "connection \<Rightarrow> string \<Rightarrow> jsval list \<Rightarrow> string list \<Rightarrow> int \<Rightarrow> int
                   \<Rightarrow> string + jsval list option"

text \<open>
  What the JavaScript engine supplies: \<^verbatim>\<open>JSON.stringify\<close>, and the message of the
  TypeError that a compiler throws.
\<close>

record runtime =
  stringify :: "jsval \<Rightarrow> string"
  type_error_message :: string

definition no_conditions :: jsval where
  "no_conditions =
     JObj [(''success'', JBool False),
           (''error'', JStr ''No conditions provided. Please specify at least one condition.'')]"

text \<open>The object built in the \<^verbatim>\<open>catch\<close> block.\<close>

definition failure :: "string \<Rightarrow> search_input \<Rightarrow> jsval" where
  "failure errorMessage input =
     JObj [(''success'', JBool False), (''error'', JStr errorMessage),
           (''model'', JStr (model input)), (''query'', query input)]"

definition success ::
  "search_input \<Rightarrow> jsval list \<Rightarrow> jsval list \<Rightarrow> int \<Rightarrow> int \<Rightarrow> bool \<Rightarrow> jsval" where
  "success input domain records n totalCount hasMore =
     JObj [(''success'', JBool True), (''records'', JArr records), (''count'', JNum n),
           (''total_count'', JNum totalCount), (''model'', JStr (model input)),
           (''query'', query input), (''domain'', JArr domain),
           (''offset'', JNum (offset input)), (''limit'', JNum (limit input)),
           (''has_more'', JBool hasMore)]"

text \<open>
  \<^verbatim>\<open>!query || !query.conditions || query.conditions.length === 0\<close>. The disjunction stops
  at its first true operand, so no property of undefined or null is read.
\<close>

definition invalid_query :: "jsval \<Rightarrow> bool" where
  "invalid_query q =
     (\<not> truthy q \<or> \<not> truthy (js_prop q ''conditions'')
      \<or> js_prop (js_prop q ''conditions'') ''length'' = JNum 0)"

text \<open>
  The body of the \<^verbatim>\<open>try\<close> block with its \<^verbatim>\<open>catch\<close>, which the two handlers have in
  common: the result object, and the remote calls made, in order. An exception of the
  compiler or of a remote call ends in the \<^verbatim>\<open>catch\<close> block.
\<close>

definition search_steps :: "runtime \<Rightarrow> remote \<Rightarrow> search_input \<Rightarrow> jsval \<times> rpc list" where
  "search_steps rt client input =
     (if invalid_query (query input) then (no_conditions, [])
      else case convertQueryToDomain (query input) of
          None \<Rightarrow> (failure (type_error_message rt) input, [])
        | Some domain \<Rightarrow>
            (case search_count client (connection input) (model input) domain of
               Inl errorMessage \<Rightarrow>
                 (failure errorMessage input,
                  [SearchCount (connection input) (model input) domain])
             | Inr totalCount \<Rightarrow>
                 if count_only input
                 then (success input domain [] 0 totalCount False,
                       [SearchCount (connection input) (model input) domain])
                 else
                   let fieldsToReturn =
                         (case fields_to_return input of None \<Rightarrow> [] | Some fs \<Rightarrow> fs);
                       calls = [SearchCount (connection input) (model input) domain,
                                SearchRead (connection input) (model input) domain
                                  fieldsToReturn (offset input) (limit input)]
                   in (case search_read client (connection input) (model input) domain
                              fieldsToReturn (offset input) (limit input) of
                         Inl errorMessage \<Rightarrow> (failure errorMessage input, calls)
                       | Inr records \<Rightarrow>
                           let n = (case records of None \<Rightarrow> 0 | Some rs \<Rightarrow> int (length rs));
                               hasMore = (offset input + n < totalCount)
                           in (success input domain
                                 (case records of None \<Rightarrow> [] | Some rs \<Rightarrow> rs)
                                 n totalCount hasMore, calls))))"

text \<open>\<^verbatim>\<open>smart_search.execute\<close> returns the result object itself.\<close>

definition execute :: "runtime \<Rightarrow> remote \<Rightarrow> search_input \<Rightarrow> jsval \<times> rpc list" where
  "execute rt client input = search_steps rt client input"

text \<open>
  \<^verbatim>\<open>smartSearch\<close> returns \<^verbatim>\<open>{ content: [{ type: 'text', text: JSON.stringify(result) }] }\<close>.
\<close>

definition text_content :: "string \<Rightarrow> jsval" where
  "text_content s =
     JObj [(''content'', JArr [JObj [(''type'', JStr ''text''), (''text'', JStr s)]])]"

definition smartSearch :: "runtime \<Rightarrow> remote \<Rightarrow> search_input \<Rightarrow> jsval \<times> rpc list" where
  "smartSearch rt client input =
     (case search_steps rt client input of
        (payload, calls) \<Rightarrow> (text_content (stringify rt payload), calls))"

section \<open>Facts about the helpers\<close>

lemma is_object_not_nullish: "is_object c \<Longrightarrow> \<not> nullish c"
  by (cases c) (simp_all add: nullish_def)

lemma condition_tuple_object: "is_object c \<Longrightarrow> condition_tuple c = Some (tuple_of c)"
  by (simp add: condition_tuple_def get_prop_def tuple_of_def is_object_not_nullish)

lemma or_loop_replicate:
  "or_loop i n domain = domain @ replicate (nat (n - 1 - i)) (JStr ''|'')"
proof (induction i n domain rule: or_loop.induct)
  case (1 i n domain)
  show ?case
  proof (cases "i < n - 1")
    case True
    then have "nat (n - 1 - i) = Suc (nat (n - 1 - (i + 1)))"
      by simp
    with True "1" show ?thesis
      by (simp add: or_loop.simps [of i] replicate_app_Cons_same)
  next
    case False
    then show ?thesis
      by (simp add: or_loop.simps [of i])
  qed
qed

lemma forEach_push_conditions:
  "\<forall>c \<in> set cs. is_object c \<Longrightarrow>
   forEach_push push_condition cs domain = Some (domain @ map tuple_of cs)"
  by (induction cs arbitrary: domain) (simp_all add: push_condition_def condition_tuple_object)

lemma list_shape:
  obtains "cs = []" | c where "cs = [c]" | "2 \<le> length cs"
proof (cases cs)
  case Nil
  then show ?thesis using that by simp
next
  case (Cons c cs')
  then show ?thesis using that by (cases cs') simp_all
qed


lemma js_prop_array_object: "js_prop q ''conditions'' = JArr cs \<Longrightarrow> is_object q"
  by (cases q) (simp_all split: if_splits)

lemma convertQueryToDomain_array:
  assumes "js_prop q ''conditions'' = JArr cs" and "\<forall>c \<in> set cs. is_object c"
  shows "convertQueryToDomain q =
    Some (if length cs \<le> 1 then map tuple_of cs
          else push_markers (js_prop q ''logic'') cs @ map tuple_of cs)"
proof -
  have q: "\<not> nullish q"
    using assms(1) js_prop_array_object is_object_not_nullish by blast
  show ?thesis
  proof (cases cs rule: list_shape)
    case 1
    with q assms(1) show ?thesis
      by (simp add: convertQueryToDomain_def get_prop_def)
  next
    case (2 c)
    with assms(2) have "is_object c" by simp
    with q assms(1) 2 show ?thesis
      by (simp add: convertQueryToDomain_def get_prop_def condition_tuple_object)
  next
    case 3
    then have "cs \<noteq> []" by auto
    with 3 q assms show ?thesis
      by (simp add: convertQueryToDomain_def get_prop_def forEach_push_conditions
          del: forEach_push.simps)
  qed
qed

lemma convertComplexQueryToDomain_flat:
  assumes "js_prop q ''conditions'' = JArr cs" and "\<forall>c \<in> set cs. conditionSchema c"
  shows "convertComplexQueryToDomain q =
    Some (if length cs \<le> 1 then map tuple_of cs
          else push_markers (js_prop q ''logic'') cs @ map tuple_of cs)"
proof -
  have q: "\<not> nullish q"
    using assms(1) js_prop_array_object is_object_not_nullish by blast
  have obj: "\<forall>c \<in> set cs. is_object c"
    using assms(2) by (simp add: conditionSchema_def)
  show ?thesis
  proof (cases cs rule: list_shape)
    case 1
    with q assms(1) show ?thesis
      by (simp add: convertComplexQueryToDomain.simps [of q] get_prop_def)
  next
    case (2 c)
    with assms(2) have c: "is_object c" "js_prop c ''field'' \<noteq> JUndefined"
      by (auto simp: conditionSchema_def)
    with q assms(1) 2 show ?thesis
      by (simp add: convertComplexQueryToDomain.simps [of q] get_prop_def
          condition_tuple_object is_object_not_nullish)
  next
    case 3
    then obtain c cs' where cs: "cs = c # cs'" by (cases cs) auto
    with assms(2) have c: "is_object c" "js_prop c ''field'' \<noteq> JUndefined"
      by (auto simp: conditionSchema_def)
    have "elem0 (JArr cs) = c" "cs \<noteq> []" using cs by simp_all
    with q assms(1) obj 3 c show ?thesis
      by (simp add: convertComplexQueryToDomain.simps [of q] get_prop_def
          forEach_push_conditions is_object_not_nullish del: forEach_push.simps elem0.simps)
  qed
qed

lemma push_markers_OR:
  "push_markers (JStr ''OR'') cs = replicate (length cs - 1) (JStr ''|'')"
  by (simp add: push_markers_def or_loop_replicate nat_diff_distrib')

lemma push_markers_NOT: "push_markers (JStr ''NOT'') cs = [JStr ''!'']"
  by (simp add: push_markers_def)

lemma push_markers_AND: "push_markers (JStr ''AND'') cs = []"
  by (simp add: push_markers_def)

lemma not_group_two_or_more:
  assumes "js_prop q ''logic'' = JStr ''NOT''" and "js_prop q ''conditions'' = JArr cs"
    and "2 \<le> length cs" and "\<forall>c \<in> set cs. is_object c"
  shows "convertQueryToDomain q = Some (JStr ''!'' # map tuple_of cs)"
  using convertQueryToDomain_array [OF assms(2,4)] assms(1,3)
  by (simp add: push_markers_NOT)

lemma push_markers_tokens: "list_all is_token (push_markers logic cs)"
  by (simp add: push_markers_def or_loop_replicate list_all_iff)

lemma condition_tuple_token: "condition_tuple c = Some t \<Longrightarrow> is_token t"
  by (auto simp: condition_tuple_def get_prop_def split: if_splits)

lemma forEach_push_tokens:
  assumes "forEach_push f xs d = Some ds" and "list_all is_token d"
    and "\<And>x ts. x \<in> set xs \<Longrightarrow> f x = Some ts \<Longrightarrow> list_all is_token ts"
  shows "list_all is_token ds"
  using assms
proof (induction xs arbitrary: d)
  case Nil
  then show ?case by simp
next
  case (Cons x xs)
  from Cons.prems(1) obtain ts where ts: "f x = Some ts"
    and rest: "forEach_push f xs (d @ ts) = Some ds"
    by (auto split: option.splits)
  have "list_all is_token ts"
    using Cons.prems(3) [of x ts] ts by simp
  with Cons.prems(2) have "list_all is_token (d @ ts)" by simp
  with rest show ?case
    using Cons.prems(3) by (intro Cons.IH [of "d @ ts"]) auto
qed

lemma push_condition_tokens: "push_condition c = Some ts \<Longrightarrow> list_all is_token ts"
  by (auto simp: push_condition_def condition_tuple_token)

lemma convertQueryToDomain_tokens:
  assumes "convertQueryToDomain q = Some ds"
  shows "list_all is_token ds"
proof -
  from assms obtain logic conditions where
    c: "get_prop q ''logic'' = Some logic" "get_prop q ''conditions'' = Some conditions"
    by (auto simp: convertQueryToDomain_def split: Option.bind_splits)
  show ?thesis
  proof (cases "\<not> truthy conditions \<or> js_prop conditions ''length'' = JNum 0")
    case True
    with assms c show ?thesis by (simp add: convertQueryToDomain_def)
  next
    case False
    note nonempty = this
    show ?thesis
    proof (cases "js_prop conditions ''length'' = JNum 1")
      case True
      with assms c nonempty show ?thesis
        by (auto simp: convertQueryToDomain_def condition_tuple_token split: Option.bind_splits)
    next
      case False
      with assms c nonempty obtain cs where
        "forEach_push push_condition cs (push_markers logic cs) = Some ds"
        by (cases conditions) (simp_all add: convertQueryToDomain_def)
      then show ?thesis
        using push_markers_tokens push_condition_tokens by (rule forEach_push_tokens)
    qed
  qed
qed

lemma convertComplexQueryToDomain_tokens:
  "convertComplexQueryToDomain q = Some ds \<Longrightarrow> list_all is_token ds"
proof (induction q arbitrary: ds rule: convertComplexQueryToDomain.induct)
  case (1 q)
  from "1.prems" obtain logic conditions where
    c: "get_prop q ''logic'' = Some logic" "get_prop q ''conditions'' = Some conditions"
    by (subst (asm) convertComplexQueryToDomain.simps) (auto split: Option.bind_splits)
  show ?case
  proof (cases "\<not> truthy conditions \<or> js_prop conditions ''length'' = JNum 0")
    case True
    with "1.prems" c show ?thesis
      by (subst (asm) convertComplexQueryToDomain.simps) simp
  next
    case False
    note nonempty = this
    with "1.prems" c obtain field0 where
      f: "get_prop (elem0 conditions) ''field'' = Some field0"
      by (subst (asm) convertComplexQueryToDomain.simps) (auto split: Option.bind_splits)
    show ?thesis
    proof (cases "field0 \<noteq> JUndefined")
      case True
      note simple = this
      show ?thesis
      proof (cases "js_prop conditions ''length'' = JNum 1")
        case True
        with "1.prems" c nonempty f simple show ?thesis
          by (subst (asm) convertComplexQueryToDomain.simps)
             (auto simp: condition_tuple_token split: Option.bind_splits)
      next
        case False
        with "1.prems" c nonempty f simple obtain cs where
          "forEach_push push_condition cs (push_markers logic cs) = Some ds"
          by (subst (asm) convertComplexQueryToDomain.simps) (cases conditions; simp)
        then show ?thesis
          using push_markers_tokens push_condition_tokens by (rule forEach_push_tokens)
      qed
    next
      case False
      note nested = this
      show ?thesis
      proof (cases "js_prop conditions ''length'' = JNum 1")
        case True
        with "1.prems" c nonempty f nested
        have "convertComplexQueryToDomain (elem0 conditions) = Some ds"
          by (subst (asm) convertComplexQueryToDomain.simps) simp
        with "1.IH"(1) [OF c nonempty f nested True] show ?thesis .
      next
        case False
        with "1.prems" c nonempty f nested obtain cs where
          cs: "conditions = JArr cs"
          and fe: "forEach_push convertComplexQueryToDomain cs (push_markers logic cs) = Some ds"
          by (subst (asm) convertComplexQueryToDomain.simps) (cases conditions; simp)
        from fe push_markers_tokens show ?thesis
        proof (rule forEach_push_tokens)
          fix x ts
          assume "x \<in> set cs" and "convertComplexQueryToDomain x = Some ts"
          with "1.IH"(2) [OF c nonempty f nested False cs] show "list_all is_token ts" .
        qed
      qed
    qed
  qed
qed

lemma queryGroupSchema_conditions:
  assumes "queryGroupSchema g"
  obtains cs where "js_prop g ''conditions'' = JArr cs" and "cs \<noteq> []"
    and "list_all conditionSchema cs \<or>
         list_all (\<lambda>c. js_prop c ''field'' = JUndefined \<and> queryGroupSchema c) cs"
  using assms by (subst (asm) queryGroupSchema.simps) (auto split: jsval.splits)

lemma queryGroupSchema_object: "queryGroupSchema g \<Longrightarrow> is_object g"
  by (subst (asm) queryGroupSchema.simps) simp

lemma forEach_push_total:
  assumes "\<And>x. x \<in> set xs \<Longrightarrow> \<exists>ts. f x = Some ts"
  shows "\<exists>tss. map f xs = map Some tss \<and> forEach_push f xs d = Some (d @ concat tss)"
  using assms
proof (induction xs arbitrary: d)
  case Nil
  then show ?case by simp
next
  case (Cons x xs)
  from Cons.prems obtain ts where ts: "f x = Some ts" by auto
  from Cons.prems have "\<And>y. y \<in> set xs \<Longrightarrow> \<exists>ts. f y = Some ts" by simp
  from Cons.IH [OF this, of "d @ ts"] obtain tss where
    "map f xs = map Some tss" "forEach_push f xs (d @ ts) = Some ((d @ ts) @ concat tss)"
    by blast
  with ts have "map f (x # xs) = map Some (ts # tss) \<and>
    forEach_push f (x # xs) d = Some (d @ concat (ts # tss))" by simp
  then show ?case by blast
qed

lemma nested_groups_compile:
  assumes "js_prop q ''conditions'' = JArr gs" and "2 \<le> length gs"
    and "\<forall>g \<in> set gs. is_object g \<and> js_prop g ''field'' = JUndefined"
  shows "convertComplexQueryToDomain q =
    forEach_push convertComplexQueryToDomain gs (push_markers (js_prop q ''logic'') gs)"
proof -
  have q: "\<not> nullish q"
    using assms(1) js_prop_array_object is_object_not_nullish by blast
  from assms(2) obtain g gs' where gs: "gs = g # gs'" by (cases gs) auto
  with assms(3) have g: "is_object g" "js_prop g ''field'' = JUndefined" by simp_all
  have "elem0 (JArr gs) = g" "gs \<noteq> []" using gs by simp_all
  with q assms(1,2) g show ?thesis
    by (simp add: convertComplexQueryToDomain.simps [of q] get_prop_def
        is_object_not_nullish del: forEach_push.simps elem0.simps)
qed

lemma single_nested_group_compiles:
  assumes "js_prop q ''conditions'' = JArr [g]"
    and "is_object g" and "js_prop g ''field'' = JUndefined"
  shows "convertComplexQueryToDomain q = convertComplexQueryToDomain g"
proof -
  have q: "\<not> nullish q"
    using assms(1) js_prop_array_object is_object_not_nullish by blast
  with assms show ?thesis
    by (simp add: convertComplexQueryToDomain.simps [of q] get_prop_def is_object_not_nullish)
qed

lemma convertComplexQueryToDomain_total:
  "queryGroupSchema q \<Longrightarrow> \<exists>ds. convertComplexQueryToDomain q = Some ds"
proof (induction q rule: queryGroupSchema.induct)
  case (1 g)
  from "1.prems" obtain cs where cs: "js_prop g ''conditions'' = JArr cs" "cs \<noteq> []"
    and shape: "list_all conditionSchema cs \<or>
         list_all (\<lambda>c. js_prop c ''field'' = JUndefined \<and> queryGroupSchema c) cs"
    by (rule queryGroupSchema_conditions)
  from shape show ?case
  proof
    assume "list_all conditionSchema cs"
    then have "\<forall>c \<in> set cs. conditionSchema c" by (simp add: list_all_iff)
    with cs(1) show ?thesis by (simp add: convertComplexQueryToDomain_flat)
  next
    assume "list_all (\<lambda>c. js_prop c ''field'' = JUndefined \<and> queryGroupSchema c) cs"
    then have groups: "\<forall>c \<in> set cs. js_prop c ''field'' = JUndefined \<and> queryGroupSchema c"
      by (simp add: list_all_iff)
    then have objs: "\<forall>c \<in> set cs. is_object c \<and> js_prop c ''field'' = JUndefined"
      by (simp add: queryGroupSchema_object)
    have sub: "\<And>x. x \<in> set cs \<Longrightarrow> \<exists>ts. convertComplexQueryToDomain x = Some ts"
      using "1.IH" [OF cs(1)] groups by blast
    show ?thesis
    proof (cases cs rule: list_shape)
      case 1
      with cs(2) show ?thesis by simp
    next
      case (2 c)
      with cs(1) objs have "convertComplexQueryToDomain g = convertComplexQueryToDomain c"
        by (simp add: single_nested_group_compiles)
      with sub [of c] 2 show ?thesis by simp
    next
      case 3
      with cs(1) objs have "convertComplexQueryToDomain g =
        forEach_push convertComplexQueryToDomain cs (push_markers (js_prop g ''logic'') cs)"
        by (intro nested_groups_compile)
      with forEach_push_total [of cs convertComplexQueryToDomain, OF sub] show ?thesis
        by metis
    qed
  qed
qed

lemma convertQueryToDomain_total:
  assumes "queryGroupSchema q"
  shows "\<exists>ds. convertQueryToDomain q = Some ds"
proof -
  from assms obtain cs where cs: "js_prop q ''conditions'' = JArr cs"
    and shape: "list_all conditionSchema cs \<or>
         list_all (\<lambda>c. js_prop c ''field'' = JUndefined \<and> queryGroupSchema c) cs"
    by (rule queryGroupSchema_conditions)
  from shape have "\<forall>c \<in> set cs. is_object c"
    by (auto simp: list_all_iff conditionSchema_def queryGroupSchema_object)
  with cs show ?thesis by (simp add: convertQueryToDomain_array)
qed

lemma forEach_push_condition_length:
  "forEach_push push_condition cs d = Some ds \<Longrightarrow> length ds = length d + length cs"
  by (induction cs arbitrary: d)
     (auto simp: push_condition_def split: option.splits)

lemma compiled_domain_not_empty:
  assumes "\<not> invalid_query q" and "convertQueryToDomain q = Some domain"
  shows "domain \<noteq> []"
proof -
  from assms(1) have q: "\<not> nullish q"
    by (auto simp: invalid_query_def nullish_def)
  define conditions where "conditions = js_prop q ''conditions''"
  from assms(1) have c: "truthy conditions" "js_prop conditions ''length'' \<noteq> JNum 0"
    by (simp_all add: invalid_query_def conditions_def)
  show ?thesis
  proof (cases "js_prop conditions ''length'' = JNum 1")
    case True
    with assms(2) q c show ?thesis
      by (auto simp: convertQueryToDomain_def get_prop_def conditions_def [symmetric]
          split: Option.bind_splits)
  next
    case False
    with assms(2) q c obtain cs where cs: "conditions = JArr cs"
      and fe: "forEach_push push_condition cs (push_markers (js_prop q ''logic'') cs) = Some domain"
      by (cases conditions)
         (simp_all add: convertQueryToDomain_def get_prop_def conditions_def [symmetric])
    from cs c(2) have "cs \<noteq> []" by auto
    with forEach_push_condition_length [OF fe] show ?thesis by auto
  qed
qed

lemma search_steps_domains:
  "r \<in> set (snd (search_steps rt client input)) \<Longrightarrow> domain_sent r \<noteq> []"
  by (auto simp: search_steps_def Let_def compiled_domain_not_empty
      split: if_splits option.splits sum.splits)

lemma no_conditions_invalid:
  "nullish q \<or> nullish (js_prop q ''conditions'') \<or> js_prop q ''conditions'' = JArr []
   \<Longrightarrow> invalid_query q"
  by (auto simp: invalid_query_def nullish_def)

section \<open>Claims\<close>

text \<open>
  In the statements below a query \<open>q\<close> is given by what its properties read as:
  \<open>js_prop q ''logic''\<close> and \<open>js_prop q ''conditions''\<close>. A query whose
  \<^verbatim>\<open>conditions\<close> reads as an array is an object, with any other properties in any order.
\<close>

text \<open>
  C1. A NOT group with N conditions, N at least 1, compiles to one \<^verbatim>\<open>"!"\<close> followed by the
  N tuples; the group \<^verbatim>\<open>{logic:"NOT", conditions:[{field:"email",operator:"=",value:false}]}\<close>
  compiles to \<^verbatim>\<open>["!",["email","=",false]]\<close>. The code does so from two conditions on
  (\<open>not_group_two_or_more\<close>). On this group of one condition it returns the tuple alone,
  without the marker:
\<close>

theorem not_single_condition_has_no_marker:
  "convertQueryToDomain
     (JObj [(''logic'', JStr ''NOT''),
            (''conditions'', JArr [JObj [(''field'', JStr ''email''),
                                         (''operator'', JStr ''=''),
                                         (''value'', JBool False)]])])
   = Some [JArr [JStr ''email'', JStr ''='', JBool False]]"
  by (simp add: convertQueryToDomain_def get_prop_def nullish_def condition_tuple_def)

theorem not_single_condition_has_no_marker_witness:
  "convertQueryToDomain
     (JObj [(''logic'', JStr ''NOT''),
            (''conditions'', JArr [JObj [(''field'', JStr ''email''),
                                         (''operator'', JStr ''=''),
                                         (''value'', JBool False)]])])
   \<noteq> Some [JStr ''!'', JArr [JStr ''email'', JStr ''='', JBool False]]"
  using not_single_condition_has_no_marker by simp

text \<open>
  C2. An OR group with N leaf conditions, N at least 2, compiles to N - 1 markers \<^verbatim>\<open>"|"\<close>
  followed by the N tuples of the conditions in input order; the output holds exactly
  N - 1 markers.
\<close>

theorem or_group_markers_then_operands:
  assumes "js_prop q ''logic'' = JStr ''OR''" and "js_prop q ''conditions'' = JArr cs"
    and "2 \<le> length cs" and "\<forall>c \<in> set cs. is_object c"
  shows "\<exists>ds. convertQueryToDomain q = Some ds
           \<and> ds = replicate (length cs - 1) (JStr ''|'') @ map tuple_of cs
           \<and> length (filter (\<lambda>t. t = JStr ''|'') ds) = length cs - 1"
proof -
  have "filter (\<lambda>t. t = JStr ''|'') (map tuple_of cs) = []"
    by (simp add: tuple_of_def filter_empty_conv)
  then show ?thesis
    using convertQueryToDomain_array [OF assms(2,4)] assms(1,3)
    by (simp add: push_markers_OR)
qed

theorem or_group_markers_then_operands_witness:
  "\<exists>ds. convertQueryToDomain
     (JObj [(''logic'', JStr ''OR''),
            (''conditions'', JArr [
               JObj [(''field'', JStr ''country_id''), (''operator'', JStr ''=''), (''value'', JNum 186)],
               JObj [(''field'', JStr ''country_id''), (''operator'', JStr ''=''), (''value'', JNum 38)],
               JObj [(''field'', JStr ''active''), (''operator'', JStr ''=''), (''value'', JBool True)]])])
      = Some ds
    \<and> ds = [JStr ''|'', JStr ''|'',
            JArr [JStr ''country_id'', JStr ''='', JNum 186],
            JArr [JStr ''country_id'', JStr ''='', JNum 38],
            JArr [JStr ''active'', JStr ''='', JBool True]]
    \<and> length (filter (\<lambda>t. t = JStr ''|'') ds) = 2"
  using or_group_markers_then_operands
    [of "JObj [(''logic'', JStr ''OR''),
            (''conditions'', JArr [
               JObj [(''field'', JStr ''country_id''), (''operator'', JStr ''=''), (''value'', JNum 186)],
               JObj [(''field'', JStr ''country_id''), (''operator'', JStr ''=''), (''value'', JNum 38)],
               JObj [(''field'', JStr ''active''), (''operator'', JStr ''=''), (''value'', JBool True)]])]"
        "[JObj [(''field'', JStr ''country_id''), (''operator'', JStr ''=''), (''value'', JNum 186)],
          JObj [(''field'', JStr ''country_id''), (''operator'', JStr ''=''), (''value'', JNum 38)],
          JObj [(''field'', JStr ''active''), (''operator'', JStr ''=''), (''value'', JBool True)]]"]
  by (simp add: tuple_of_def numeral_3_eq_3)

text \<open>
  C3. A group whose \<^verbatim>\<open>conditions\<close> holds exactly one leaf condition compiles to the
  tuple of that condition alone, with no marker. The statement does not mention
  \<^verbatim>\<open>logic\<close>: it holds for AND, OR, NOT and any other value.
\<close>

theorem single_condition_ignores_logic:
  assumes "js_prop q ''conditions'' = JArr [c]" and "is_object c"
  shows "convertQueryToDomain q = Some [tuple_of c]"
  using convertQueryToDomain_array [OF assms(1)] assms(2) by simp

theorem single_condition_ignores_logic_witness:
  "convertQueryToDomain
     (JObj [(''logic'', JStr ''OR''),
            (''conditions'', JArr [JObj [(''field'', JStr ''name''),
                                         (''operator'', JStr ''ilike''),
                                         (''value'', JStr ''John'')]])])
   = Some [JArr [JStr ''name'', JStr ''ilike'', JStr ''John'']]"
  using single_condition_ignores_logic
    [of "JObj [(''logic'', JStr ''OR''),
            (''conditions'', JArr [JObj [(''field'', JStr ''name''),
                                         (''operator'', JStr ''ilike''),
                                         (''value'', JStr ''John'')]])]"
        "JObj [(''field'', JStr ''name''), (''operator'', JStr ''ilike''), (''value'', JStr ''John'')]"]
  by (simp add: tuple_of_def)

text \<open>
  C4. An AND group with N leaf conditions, N at least 2, compiles to a sequence of length
  N: the tuples of the conditions in input order, with no marker.
\<close>

theorem and_group_tuples_in_order:
  assumes "js_prop q ''logic'' = JStr ''AND''" and "js_prop q ''conditions'' = JArr cs"
    and "2 \<le> length cs" and "\<forall>c \<in> set cs. is_object c"
  shows "\<exists>ds. convertQueryToDomain q = Some ds \<and> ds = map tuple_of cs \<and> length ds = length cs"
  using convertQueryToDomain_array [OF assms(2,4)] assms(1,3)
  by (simp add: push_markers_AND)

theorem and_group_tuples_in_order_witness:
  "\<exists>ds. convertQueryToDomain
     (JObj [(''logic'', JStr ''AND''),
            (''conditions'', JArr [
               JObj [(''field'', JStr ''active''), (''operator'', JStr ''=''), (''value'', JBool True)],
               JObj [(''field'', JStr ''country_id''), (''operator'', JStr ''=''), (''value'', JNum 186)]])])
      = Some ds \<and>
      ds = [JArr [JStr ''active'', JStr ''='', JBool True],
            JArr [JStr ''country_id'', JStr ''='', JNum 186]] \<and>
      length ds = 2"
  using and_group_tuples_in_order
    [of "JObj [(''logic'', JStr ''AND''),
            (''conditions'', JArr [
               JObj [(''field'', JStr ''active''), (''operator'', JStr ''=''), (''value'', JBool True)],
               JObj [(''field'', JStr ''country_id''), (''operator'', JStr ''=''), (''value'', JNum 186)]])]"
        "[JObj [(''field'', JStr ''active''), (''operator'', JStr ''=''), (''value'', JBool True)],
          JObj [(''field'', JStr ''country_id''), (''operator'', JStr ''=''), (''value'', JNum 186)]]"]
  by (simp add: tuple_of_def)

text \<open>
  C5. On a group whose \<^verbatim>\<open>conditions\<close> are all leaf conditions (objects with a
  \<^verbatim>\<open>field\<close> and an \<^verbatim>\<open>operator\<close>, as \<^verbatim>\<open>conditionSchema\<close> has them), the recursive
  compiler returns what the production compiler returns.
\<close>

theorem recursive_agrees_on_flat_groups:
  assumes "js_prop q ''conditions'' = JArr cs" and "\<forall>c \<in> set cs. conditionSchema c"
  shows "convertComplexQueryToDomain q = convertQueryToDomain q"
proof -
  from assms(2) have "\<forall>c \<in> set cs. is_object c"
    by (simp add: conditionSchema_def)
  with assms show ?thesis
    by (simp only: convertComplexQueryToDomain_flat convertQueryToDomain_array)
qed

theorem recursive_agrees_on_flat_groups_witness:
  "convertComplexQueryToDomain
     (JObj [(''logic'', JStr ''NOT''),
            (''conditions'', JArr [
               JObj [(''field'', JStr ''active''), (''operator'', JStr ''=''), (''value'', JBool True)],
               JObj [(''field'', JStr ''email''), (''operator'', JStr ''=''), (''value'', JBool False)]])])
   = convertQueryToDomain
     (JObj [(''logic'', JStr ''NOT''),
            (''conditions'', JArr [
               JObj [(''field'', JStr ''active''), (''operator'', JStr ''=''), (''value'', JBool True)],
               JObj [(''field'', JStr ''email''), (''operator'', JStr ''=''), (''value'', JBool False)]])])"
  using recursive_agrees_on_flat_groups
    [of "JObj [(''logic'', JStr ''NOT''),
            (''conditions'', JArr [
               JObj [(''field'', JStr ''active''), (''operator'', JStr ''=''), (''value'', JBool True)],
               JObj [(''field'', JStr ''email''), (''operator'', JStr ''=''), (''value'', JBool False)]])]"
        "[JObj [(''field'', JStr ''active''), (''operator'', JStr ''=''), (''value'', JBool True)],
          JObj [(''field'', JStr ''email''), (''operator'', JStr ''=''), (''value'', JBool False)]]"]
  by (simp add: conditionSchema_def)

text \<open>
  C6. On an OR group whose \<^verbatim>\<open>conditions\<close> are k nested groups, k at least 2, the
  recursive compiler compiles every sub-group and returns k - 1 markers \<^verbatim>\<open>"|"\<close> followed
  by the token sequences of the sub-groups, concatenated in input order.
\<close>

theorem nested_or_groups_splice:
  assumes "js_prop q ''logic'' = JStr ''OR''" and "js_prop q ''conditions'' = JArr gs"
    and "2 \<le> length gs"
    and "\<forall>g \<in> set gs. queryGroupSchema g \<and> js_prop g ''field'' = JUndefined"
  shows "\<exists>ds. map convertComplexQueryToDomain gs = map Some ds \<and>
           convertComplexQueryToDomain q =
             Some (replicate (length gs - 1) (JStr ''|'') @ concat ds)"
proof -
  from assms(4) have "\<forall>g \<in> set gs. is_object g \<and> js_prop g ''field'' = JUndefined"
    by (simp add: queryGroupSchema_object)
  with assms(2,3) have "convertComplexQueryToDomain q =
      forEach_push convertComplexQueryToDomain gs (push_markers (js_prop q ''logic'') gs)"
    by (rule nested_groups_compile)
  moreover have "\<And>g. g \<in> set gs \<Longrightarrow> \<exists>ts. convertComplexQueryToDomain g = Some ts"
    using assms(4) convertComplexQueryToDomain_total by blast
  from forEach_push_total [of gs convertComplexQueryToDomain, OF this]
  obtain ds where "map convertComplexQueryToDomain gs = map Some ds"
    "forEach_push convertComplexQueryToDomain gs (push_markers (js_prop q ''logic'') gs)
       = Some (push_markers (js_prop q ''logic'') gs @ concat ds)"
    by blast
  ultimately show ?thesis
    using assms(1) by (auto simp: push_markers_OR)
qed

theorem nested_or_groups_splice_witness:
  "convertComplexQueryToDomain
     (JObj [(''logic'', JStr ''OR''),
            (''conditions'', JArr [
               JObj [(''logic'', JStr ''AND''),
                     (''conditions'', JArr [
                        JObj [(''field'', JStr ''a''), (''operator'', JStr ''=''), (''value'', JNum 1)],
                        JObj [(''field'', JStr ''b''), (''operator'', JStr ''=''), (''value'', JNum 2)]])],
               JObj [(''logic'', JStr ''AND''),
                     (''conditions'', JArr [
                        JObj [(''field'', JStr ''c''), (''operator'', JStr ''=''), (''value'', JNum 3)]])]])])
   = Some [JStr ''|'',
           JArr [JStr ''a'', JStr ''='', JNum 1],
           JArr [JStr ''b'', JStr ''='', JNum 2],
           JArr [JStr ''c'', JStr ''='', JNum 3]]"
proof -
  let ?g1 = "JObj [(''logic'', JStr ''AND''),
                     (''conditions'', JArr [
                        JObj [(''field'', JStr ''a''), (''operator'', JStr ''=''), (''value'', JNum 1)],
                        JObj [(''field'', JStr ''b''), (''operator'', JStr ''=''), (''value'', JNum 2)]])]"
  let ?g2 = "JObj [(''logic'', JStr ''AND''),
                     (''conditions'', JArr [
                        JObj [(''field'', JStr ''c''), (''operator'', JStr ''=''), (''value'', JNum 3)]])]"
  let ?q = "JObj [(''logic'', JStr ''OR''), (''conditions'', JArr [?g1, ?g2])]"
  have g1: "convertComplexQueryToDomain ?g1 =
      Some [JArr [JStr ''a'', JStr ''='', JNum 1], JArr [JStr ''b'', JStr ''='', JNum 2]]"
    by code_simp
  have g2: "convertComplexQueryToDomain ?g2 = Some [JArr [JStr ''c'', JStr ''='', JNum 3]]"
    by code_simp
  have wf: "\<forall>g \<in> set [?g1, ?g2]. queryGroupSchema g \<and> js_prop g ''field'' = JUndefined"
    by code_simp
  have "js_prop ?q ''logic'' = JStr ''OR''" "js_prop ?q ''conditions'' = JArr [?g1, ?g2]"
    "2 \<le> length [?g1, ?g2]"
    by simp_all
  from nested_or_groups_splice [OF this wf] obtain ds where
    "map convertComplexQueryToDomain [?g1, ?g2] = map Some ds"
    and r: "convertComplexQueryToDomain ?q =
      Some (replicate (length [?g1, ?g2] - 1) (JStr ''|'') @ concat ds)"
    by blast
  with g1 g2 have "ds = [[JArr [JStr ''a'', JStr ''='', JNum 1], JArr [JStr ''b'', JStr ''='', JNum 2]],
      [JArr [JStr ''c'', JStr ''='', JNum 3]]]"
    by (auto simp: map_eq_Cons_conv)
  with r show ?thesis by simp
qed

text \<open>
  C7. A group whose \<^verbatim>\<open>conditions\<close> array is empty compiles to the empty filter
  expression, whatever its \<^verbatim>\<open>logic\<close> is; no exception is thrown.
\<close>

theorem empty_conditions_compile_to_empty:
  assumes "js_prop q ''conditions'' = JArr []"
  shows "convertQueryToDomain q = Some []"
  using convertQueryToDomain_array [OF assms] by simp

theorem empty_conditions_compile_to_empty_witness:
  "convertQueryToDomain (JObj [(''logic'', JStr ''NOT''), (''conditions'', JArr [])]) = Some []"
  using empty_conditions_compile_to_empty
    [of "JObj [(''logic'', JStr ''NOT''), (''conditions'', JArr [])]"]
  by simp

text \<open>
  C8. When a condition leaf of a group lacks \<^verbatim>\<open>field\<close>, \<^verbatim>\<open>operator\<close> or \<^verbatim>\<open>value\<close>, the
  compiler throws nothing: it returns an expression that holds the 3-tuple of that
  condition, in which the missing component is undefined.
\<close>

theorem malformed_condition_is_compiled:
  assumes "js_prop q ''conditions'' = JArr cs" and "\<forall>c \<in> set cs. is_object c"
    and "c \<in> set cs" and "c = JObj kvs"
    and "k \<in> {''field'', ''operator'', ''value''}" and "k \<notin> fst ` set kvs"
  shows "\<exists>ds. convertQueryToDomain q = Some ds \<and>
           JArr [js_prop c ''field'', js_prop c ''operator'', js_prop c ''value''] \<in> set ds \<and>
           js_prop c k = JUndefined"
proof -
  from assms(4,6) have "js_prop c k = JUndefined"
    by (simp add: map_of_eq_None_iff [THEN iffD2])
  moreover have "tuple_of c \<in> set (map tuple_of cs)"
    using assms(3) by simp
  ultimately show ?thesis
    using convertQueryToDomain_array [OF assms(1,2)]
    by (auto simp: tuple_of_def)
qed

theorem malformed_condition_is_compiled_witness:
  "\<exists>ds. convertQueryToDomain
      (JObj [(''logic'', JStr ''OR''),
             (''conditions'', JArr [
                JObj [(''field'', JStr ''name''), (''operator'', JStr ''=''), (''value'', JStr ''x'')],
                JObj [(''operator'', JStr ''='')]])]) = Some ds \<and>
     JArr [JUndefined, JStr ''='', JUndefined] \<in> set ds"
  using malformed_condition_is_compiled
    [of "JObj [(''logic'', JStr ''OR''),
             (''conditions'', JArr [
                JObj [(''field'', JStr ''name''), (''operator'', JStr ''=''), (''value'', JStr ''x'')],
                JObj [(''operator'', JStr ''='')]])]"
        "[JObj [(''field'', JStr ''name''), (''operator'', JStr ''=''), (''value'', JStr ''x'')],
          JObj [(''operator'', JStr ''='')]]"
        "JObj [(''operator'', JStr ''='')]" "[(''operator'', JStr ''='')]" "''field''"]
  by simp

text \<open>
  C9. Whatever the input, every element of an expression that either compiler returns is
  \<^verbatim>\<open>"|"\<close>, \<^verbatim>\<open>"!"\<close> or an array of three elements; and on a query group of the schema both
  compilers do return an expression.
\<close>

theorem output_is_flat_token_array:
  "(\<forall>ds. convertQueryToDomain q = Some ds \<longrightarrow> list_all is_token ds)
   \<and> (\<forall>ds. convertComplexQueryToDomain q = Some ds \<longrightarrow> list_all is_token ds)
   \<and> (queryGroupSchema q \<longrightarrow>
        (\<exists>ds. convertQueryToDomain q = Some ds) \<and> (\<exists>ds. convertComplexQueryToDomain q = Some ds))"
  using convertQueryToDomain_tokens convertComplexQueryToDomain_tokens
    convertQueryToDomain_total convertComplexQueryToDomain_total
  by blast

theorem output_is_flat_token_array_witness:
  "(\<exists>ds. convertQueryToDomain
       (JObj [(''logic'', JStr ''OR''),
              (''conditions'', JArr [
                 JObj [(''logic'', JStr ''NOT''),
                       (''conditions'', JArr [
                          JObj [(''field'', JStr ''a''), (''operator'', JStr ''=''), (''value'', JNum 1)],
                          JObj [(''field'', JStr ''b''), (''operator'', JStr ''=''), (''value'', JNum 2)]])],
                 JObj [(''logic'', JStr ''AND''),
                       (''conditions'', JArr [
                          JObj [(''field'', JStr ''c''), (''operator'', JStr ''=''), (''value'', JNum 3)]])]])])
       = Some ds \<and> list_all is_token ds)
   \<and> (\<exists>ds. convertComplexQueryToDomain
       (JObj [(''logic'', JStr ''OR''),
              (''conditions'', JArr [
                 JObj [(''logic'', JStr ''NOT''),
                       (''conditions'', JArr [
                          JObj [(''field'', JStr ''a''), (''operator'', JStr ''=''), (''value'', JNum 1)],
                          JObj [(''field'', JStr ''b''), (''operator'', JStr ''=''), (''value'', JNum 2)]])],
                 JObj [(''logic'', JStr ''AND''),
                       (''conditions'', JArr [
                          JObj [(''field'', JStr ''c''), (''operator'', JStr ''=''), (''value'', JNum 3)]])]])])
       = Some ds \<and> list_all is_token ds)"
proof -
  let ?q = "JObj [(''logic'', JStr ''OR''),
              (''conditions'', JArr [
                 JObj [(''logic'', JStr ''NOT''),
                       (''conditions'', JArr [
                          JObj [(''field'', JStr ''a''), (''operator'', JStr ''=''), (''value'', JNum 1)],
                          JObj [(''field'', JStr ''b''), (''operator'', JStr ''=''), (''value'', JNum 2)]])],
                 JObj [(''logic'', JStr ''AND''),
                       (''conditions'', JArr [
                          JObj [(''field'', JStr ''c''), (''operator'', JStr ''=''), (''value'', JNum 3)]])]])]"
  have "queryGroupSchema ?q" by code_simp
  with output_is_flat_token_array [of ?q] show ?thesis by blast
qed

text \<open>
  C10. When the query is absent (undefined or null), or its \<^verbatim>\<open>conditions\<close> is missing
  (undefined or null) or an empty array,
  both handlers return the failure \<^verbatim>\<open>No conditions provided. Please specify at least one
  condition.\<close> and make no remote call. This is the result even for the absent query, on
  which the compiler would throw and the \<^verbatim>\<open>catch\<close> block would answer otherwise. On every
  input, every domain that a handler sends to the remote server is non-empty.
\<close>

theorem no_conditions_rejected_before_compile:
  "(nullish (query input) \<or> nullish (js_prop (query input) ''conditions'')
      \<or> js_prop (query input) ''conditions'' = JArr []
    \<longrightarrow> execute rt client input = (no_conditions, [])
      \<and> smartSearch rt client input = (text_content (stringify rt no_conditions), []))
   \<and> (\<forall>r \<in> set (snd (execute rt client input)). domain_sent r \<noteq> [])
   \<and> (\<forall>r \<in> set (snd (smartSearch rt client input)). domain_sent r \<noteq> [])"
proof (intro conjI impI ballI)
  assume "nullish (query input) \<or> nullish (js_prop (query input) ''conditions'')
      \<or> js_prop (query input) ''conditions'' = JArr []"
  then have inv: "invalid_query (query input)" by (rule no_conditions_invalid)
  then show "execute rt client input = (no_conditions, [])"
    by (simp add: execute_def search_steps_def)
  from inv show "smartSearch rt client input = (text_content (stringify rt no_conditions), [])"
    by (simp add: smartSearch_def search_steps_def)
next
  fix r assume "r \<in> set (snd (execute rt client input))"
  then show "domain_sent r \<noteq> []"
    by (simp add: execute_def search_steps_domains)
next
  fix r assume "r \<in> set (snd (smartSearch rt client input))"
  then have "r \<in> set (snd (search_steps rt client input))"
    by (simp add: smartSearch_def split: prod.splits)
  then show "domain_sent r \<noteq> []" by (rule search_steps_domains)
qed

theorem no_conditions_rejected_before_compile_witness:
  "execute \<lparr>stringify = (\<lambda>v. ''{}''), type_error_message = ''TypeError''\<rparr>
     \<lparr>search_count = (\<lambda>c m d. Inr 7), search_read = (\<lambda>c m d fs off lim. Inr None)\<rparr>
     \<lparr>connection = \<lparr>url = ''http://localhost'', db = ''odoo'', uid = 2, password = ''pw'',
                     context' = None\<rparr>,
      model = ''res.partner'',
      query = JObj [(''logic'', JStr ''AND''), (''conditions'', JArr [])],
      fields_to_return = None, limit = 20, offset = 0, count_only = True\<rparr>
   = (no_conditions, [])
   \<and> smartSearch \<lparr>stringify = (\<lambda>v. ''{}''), type_error_message = ''TypeError''\<rparr>
     \<lparr>search_count = (\<lambda>c m d. Inr 7), search_read = (\<lambda>c m d fs off lim. Inr None)\<rparr>
     \<lparr>connection = \<lparr>url = ''http://localhost'', db = ''odoo'', uid = 2, password = ''pw'',
                     context' = None\<rparr>,
      model = ''res.partner'',
      query = JUndefined,
      fields_to_return = None, limit = 20, offset = 0, count_only = True\<rparr>
   = (text_content ''{}'', [])
   \<and> map domain_sent (snd (execute
     \<lparr>stringify = (\<lambda>v. ''{}''), type_error_message = ''TypeError''\<rparr>
     \<lparr>search_count = (\<lambda>c m d. Inr 7), search_read = (\<lambda>c m d fs off lim. Inr None)\<rparr>
     \<lparr>connection = \<lparr>url = ''http://localhost'', db = ''odoo'', uid = 2, password = ''pw'',
                     context' = None\<rparr>,
      model = ''res.partner'',
      query = JObj [(''logic'', JStr ''AND''),
                    (''conditions'', JArr [JObj [(''field'', JStr ''active''),
                                                 (''operator'', JStr ''=''),
                                                 (''value'', JBool True)]])],
      fields_to_return = None, limit = 20, offset = 0, count_only = True\<rparr>))
     = [[JArr [JStr ''active'', JStr ''='', JBool True]]]"
proof -
  let ?rt = "\<lparr>stringify = (\<lambda>v. ''{}''), type_error_message = ''TypeError''\<rparr>"
  let ?client = "\<lparr>search_count = (\<lambda>c m d. Inr 7),
                   search_read = (\<lambda>c m d fs off lim. Inr None)\<rparr>"
  let ?conn = "\<lparr>url = ''http://localhost'', db = ''odoo'', uid = 2, password = ''pw'',
                 context' = None\<rparr>"
  let ?empty = "\<lparr>connection = ?conn, model = ''res.partner'',
      query = JObj [(''logic'', JStr ''AND''), (''conditions'', JArr [])],
      fields_to_return = None, limit = 20, offset = 0, count_only = True\<rparr>"
  let ?absent = "\<lparr>connection = ?conn, model = ''res.partner'', query = JUndefined,
      fields_to_return = None, limit = 20, offset = 0, count_only = True\<rparr>"
  have "execute ?rt ?client ?empty = (no_conditions, [])"
    using no_conditions_rejected_before_compile [of ?empty ?rt ?client] by simp
  moreover have "smartSearch ?rt ?client ?absent = (text_content ''{}'', [])"
    using no_conditions_rejected_before_compile [of ?absent ?rt ?client]
    by (simp add: nullish_def)
  ultimately show ?thesis
    by (simp add: execute_def search_steps_def invalid_query_def convertQueryToDomain_def
        get_prop_def nullish_def condition_tuple_def)
qed

end
